theory Spec2Isabelle
  imports Main "HOL-Library.Word"
begin

unbundle bit_operations_syntax

section \<open>Data model of the DHT22 driver (dht22.h)\<close>

type_synonym u8 = "8 word"
type_synonym u16 = "16 word"
type_synonym u32 = "32 word"

text \<open>The enumeration \<open>dht_result_t\<close>, constructor for constructor.\<close>

datatype dht_result_t =
    DHT_OK
  | DHT_INVALID_INPUT
  | DHT_MALLOC_FAILED
  | DHT_FAILED_TO_SET_PIN_MODE
  | DHT_READ_QUERY_TOO_FREQUENT
  | DHT_FAILED_TO_SET_PIN_DIRECTION
  | DHT_FAILED_TO_SET_PIN_LEVEL
  | DHT_SENSOR_DID_NOT_SWITCH_TO_HIGH
  | DHT_SENSOR_DID_NOT_SWITCH_TO_LOW
  | DHT_INVALID_CHECKSUM

text \<open>The struct \<open>dht_data_t\<close>: six \<open>uint16_t\<close> fields.\<close>

record dht_data_t =
  faTempWhole :: u16
  faTempFraction :: u16
  csTempWhole :: u16
  csTempFraction :: u16
  rhWhole :: u16
  rhFraction :: u16

section \<open>The frame decoder \<open>dhtProcessRawData\<close>\<close>

text \<open>
  The raw buffer \<open>b\<close> is the 40-byte array of \<open>dhtRead\<close>; it is a list of
  forty \<open>u8\<close> counters here.  A counter resolves to the bit 1 when it is greater than 19.
\<close>

definition resolve :: "u8 \<Rightarrow> u32" where
  "resolve c = (if 19 < c then 1 else 0)"

text \<open>
  The three accumulation loops of \<open>dhtProcessRawData\<close> have one shape,
  \<^verbatim>\<open>for (x = hi; x > lo; x--) { acc |= b[x] > 19 ? 1 : 0; acc <<= x > lo+1 ? 1 : 0; }\<close>
  with \<open>(hi, lo)\<close> equal to \<open>(39, 23)\<close> for the humidity, \<open>(22, 7)\<close> for
  the temperature and \<open>(7, -1)\<close> for the checksum.  The loop variable is a C \<open>int\<close>.
\<close>

function shift_in :: "u8 list \<Rightarrow> int \<Rightarrow> int \<Rightarrow> u32 \<Rightarrow> u32" where
  "shift_in b lo x acc =
     (if x > lo then
        let acc1 = acc OR resolve (b ! nat x);
            acc2 = push_bit (if x > lo + 1 then 1 else 0 :: nat) acc1
        in shift_in b lo (x - 1) acc2
      else acc)"
  by pat_completeness auto
termination
  by (relation "measure (\<lambda>(b, lo, x, acc). nat (x - lo))") auto

declare shift_in.simps [simp del]

text \<open>
  The body of \<open>dhtProcessRawData\<close>.  All locals are \<open>uint32_t\<close>: the negation
  \<open>temp *= -1\<close>, the divisions and the remainders are unsigned 32-bit operations, and
  each store into a \<open>uint16_t\<close> field keeps the low 16 bits.  The output structure is
  passed in and handed back, so that an early return leaves it as it was.
\<close>

definition dhtProcessRawData :: "u8 list \<Rightarrow> dht_data_t \<Rightarrow> dht_result_t \<times> dht_data_t" where
  "dhtProcessRawData b outdata =
     (let rh = shift_in b 23 39 0;
          isNegative = (19 < b ! 23);
          temp0 = shift_in b 7 22 0;
          temp = (if isNegative then temp0 * (- 1) else temp0);
          checksum = shift_in b (- 1) 7 0;
          calculated_checksum0 =
            drop_bit 8 (rh AND 0x0000ff00) + (rh AND 0x000000ff)
            + drop_bit 8 (temp AND 0x0000ff00) + (temp AND 0x000000ff);
          calculated_checksum = calculated_checksum0 AND 0x0000ff
      in if checksum \<noteq> calculated_checksum then (DHT_INVALID_CHECKSUM, outdata)
         else
           let out1 = outdata\<lparr>csTempWhole := ucast (temp div 10)\<rparr>;
               out2 = out1\<lparr>csTempFraction := ucast ((temp * 10) mod 100)\<rparr>;
               out3 = out2\<lparr>rhWhole := ucast (rh div 10)\<rparr>;
               out4 = out3\<lparr>rhFraction := ucast (rh mod 10)\<rparr>;
               temp1 = temp * 100;
               temp2 = temp1 div 50;
               temp3 = temp2 * 9;
               out5 = out4\<lparr>faTempWhole := ucast (temp3 div 100 + 32)\<rparr>;
               out6 = out5\<lparr>faTempFraction := ucast (temp3 mod 100)\<rparr>
           in (DHT_OK, out6))"

section \<open>Frames and measurements as the specification words them\<close>

text \<open>
  The threshold rule.  The sensor sends the humidity field, the temperature field and the checksum, each most
  significant bit first; the engine stores the first bit at index 39.  So index \<open>24 + k\<close>
  holds bit \<open>k\<close> of the humidity field, index \<open>8 + k\<close> bit \<open>k\<close> of the temperature
  field and index \<open>k\<close> bit \<open>k\<close> of the checksum.  A 1 is stored as the duration
  \<open>long\<close>, a 0 as the duration \<open>short\<close>.
\<close>

definition encode_field :: "u8 \<Rightarrow> u8 \<Rightarrow> nat \<Rightarrow> 'a::len word \<Rightarrow> u8 list" where
  "encode_field short long n v = map (\<lambda>k. if bit v k then long else short) [0..<n]"

definition encode :: "u8 \<Rightarrow> u8 \<Rightarrow> u16 \<Rightarrow> u16 \<Rightarrow> u8 \<Rightarrow> u8 list" where
  "encode short long humidity temperature checksum =
     encode_field short long 8 checksum
     @ encode_field short long 16 temperature
     @ encode_field short long 16 humidity"

text \<open>The checksum the sensor sends: the low byte of the sum of the four field bytes.\<close>

definition field_checksum :: "u16 \<Rightarrow> u16 \<Rightarrow> u8" where
  "field_checksum humidity temperature =
     ucast (drop_bit 8 humidity) + ucast humidity + ucast (drop_bit 8 temperature) + ucast temperature"

text \<open>
  The fixed-point measurement of a humidity and a non-negative temperature, both in
  tenths, in the order of operations the specification gives: Celsius whole
  \<open>temperature / 10\<close>, Celsius fraction \<open>(temperature * 10) mod 100\<close>, humidity whole
  \<open>humidity / 10\<close>, humidity fraction \<open>humidity mod 10\<close>; for Fahrenheit multiply
  by 100, divide by 50, multiply by 9, then whole \<open>result / 100 + 32\<close> and fraction
  \<open>result mod 100\<close>.
\<close>

definition spec_measurement :: "nat \<Rightarrow> nat \<Rightarrow> dht_data_t" where
  "spec_measurement humidity temperature =
     (let result = temperature * 100 div 50 * 9
      in \<lparr>faTempWhole = of_nat (result div 100 + 32), faTempFraction = of_nat (result mod 100),
          csTempWhole = of_nat (temperature div 10),
          csTempFraction = of_nat (temperature * 10 mod 100),
          rhWhole = of_nat (humidity div 10), rhFraction = of_nat (humidity mod 10)\<rparr>)"

definition zero_data :: dht_data_t where
  "zero_data = \<lparr>faTempWhole = 0, faTempFraction = 0, csTempWhole = 0, csTempFraction = 0,
                 rhWhole = 0, rhFraction = 0\<rparr>"

section \<open>The platform: GPIO, tick counter, allocator\<close>

text \<open>
  The driver is written against the ESP8266 SDK and FreeRTOS, which are not part of the
  repository.  What the driver observes of them is a parameter of the model:
  \<^item> \<open>valid_gpio\<close> is the macro \<open>GPIO_IS_VALID_GPIO\<close>;
  \<^item> \<open>set_pull_mode_ok\<close>, \<open>set_direction_ok\<close> and \<open>set_level_ok\<close> say whether
    \<open>gpio_set_pull_mode\<close> (with \<open>GPIO_PULLUP_ONLY\<close>), \<open>gpio_set_direction\<close> and
    \<open>gpio_set_level\<close> return \<open>ESP_OK\<close>;
  \<^item> \<open>get_level pin k\<close> is what the \<open>k\<close>-th call of \<open>gpio_get_level\<close> returns
    during one read (the SDK returns 0 or 1); the busy delays between two samples are
    not modelled, the line is the sequence of samples;
  \<^item> \<open>tick_rate_hz\<close> is \<open>configTICK_RATE_HZ\<close>.
\<close>

datatype level = DHT_LOW | DHT_HIGH

datatype gpio_mode_t = GPIO_MODE_INPUT | GPIO_MODE_OUTPUT

record platform =
  valid_gpio :: "u8 \<Rightarrow> bool"
  set_pull_mode_ok :: "u8 \<Rightarrow> bool"
  set_direction_ok :: "u8 \<Rightarrow> gpio_mode_t \<Rightarrow> bool"
  set_level_ok :: "u8 \<Rightarrow> level \<Rightarrow> bool"
  get_level :: "u8 \<Rightarrow> nat \<Rightarrow> level"
  tick_rate_hz :: u32

text \<open>FreeRTOS's \<open>pdMS_TO_TICKS\<close>, in \<open>TickType_t\<close> (32-bit unsigned) arithmetic.\<close>

definition pdMS_TO_TICKS :: "u32 \<Rightarrow> u32 \<Rightarrow> u32" where
  "pdMS_TO_TICKS hz ms = (ms * hz) div 1000"

section \<open>The handle and the heap\<close>

type_synonym addr = nat

abbreviation (input) NULL :: addr where
  "NULL \<equiv> 0"

definition DHT_MAX_SENSOR_NAME :: int where
  "DHT_MAX_SENSOR_NAME = 32"

text \<open>The struct \<open>dht_t\<close> of dht22.h and the private struct \<open>dhtpvt_t\<close> of dht22.c.\<close>

record dht_t =
  name :: "u8 list"
  pin :: u8
  opaque :: addr
  pc :: u32

record dhtpvt_t =
  pDhtAddress :: addr
  successCount :: u32
  errorCount :: u32

datatype obj = DhtObj dht_t | PvtObj dhtpvt_t

text \<open>
  The heap maps the address of every live block to its contents.  The allocator hands
  out the addresses of \<open>avail\<close> in order and returns \<open>NULL\<close> when none is left; a
  fresh block is not initialised, it holds whatever \<open>junk_dht\<close> or \<open>junk_pvt\<close>
  gives for its address.
\<close>

record heap =
  store :: "addr \<rightharpoonup> obj"
  avail :: "addr list"
  junk_dht :: "addr \<Rightarrow> dht_t"
  junk_pvt :: "addr \<Rightarrow> dhtpvt_t"

definition malloc_pvt :: "heap \<Rightarrow> addr \<times> heap" where
  "malloc_pvt h =
     (case avail h of
        [] \<Rightarrow> (NULL, h)
      | a # as \<Rightarrow> (a, h\<lparr>store := (store h)(a \<mapsto> PvtObj (junk_pvt h a)), avail := as\<rparr>))"

definition malloc_dht :: "heap \<Rightarrow> addr \<times> heap" where
  "malloc_dht h =
     (case avail h of
        [] \<Rightarrow> (NULL, h)
      | a # as \<Rightarrow> (a, h\<lparr>store := (store h)(a \<mapsto> DhtObj (junk_dht h a)), avail := as\<rparr>))"

definition free :: "heap \<Rightarrow> addr \<Rightarrow> heap" where
  "free h a = h\<lparr>store := (store h)(a := None)\<rparr>"

section \<open>\<open>dhtInitialize\<close>\<close>

text \<open>
  The scan \<^verbatim>\<open>for (x = 0; x < DHT_MAX_SENSOR_NAME; x++) if (name[x] == 0) {...; break;}\<close>
  over the caller's buffer.  The buffer is the list of its bytes; reading past its end
  is undefined behaviour in C and \<open>None\<close> here.
\<close>

function null_terminated :: "u8 list \<Rightarrow> int \<Rightarrow> bool option" where
  "null_terminated nm x =
     (if x < DHT_MAX_SENSOR_NAME then
        if nat x < length nm then
          if nm ! nat x = 0 then Some True else null_terminated nm (x + 1)
        else None
      else Some False)"
  by pat_completeness auto
termination
  by (relation "measure (\<lambda>(nm, x). nat (DHT_MAX_SENSOR_NAME - x))") auto

declare null_terminated.simps [simp del]

text \<open>
  \<open>dhtInitialize\<close>, statement by statement.  The argument \<open>nm\<close> is \<open>None\<close> for a
  \<open>NULL\<close> name and the caller's buffer otherwise; \<open>ppDht\<close> is \<open>None\<close> for a \<open>NULL\<close>
  output pointer and otherwise the pointer value held by the caller's variable.  The
  result is the return code together with the buffer, the heap and the caller's
  variable as the call leaves them; \<open>None\<close> is undefined behaviour.
\<close>

definition dhtInitialize ::
  "platform \<Rightarrow> heap \<Rightarrow> u8 \<Rightarrow> u8 list option \<Rightarrow> addr option
     \<Rightarrow> (dht_result_t \<times> u8 list option \<times> heap \<times> addr option) option" where
  "dhtInitialize g h pinId nm ppDht =
     (if \<not> valid_gpio g pinId then Some (DHT_INVALID_INPUT, nm, h, ppDht)
      else case nm of
        None \<Rightarrow> Some (DHT_INVALID_INPUT, nm, h, ppDht)
      | Some [] \<Rightarrow> None
      | Some (c # cs) \<Rightarrow>
          if c = 0 then Some (DHT_INVALID_INPUT, nm, h, ppDht)
          else case null_terminated (c # cs) 0 of
            None \<Rightarrow> None
          | Some nullTerminated \<Rightarrow>
              let nm1 = (if nullTerminated then c # cs
                         else (c # cs)[nat (DHT_MAX_SENSOR_NAME - 1) := 0])
              in case ppDht of
                None \<Rightarrow> Some (DHT_INVALID_INPUT, Some nm1, h, ppDht)
              | Some _ \<Rightarrow>
                  (case malloc_pvt h of (pDhtpvt, h1) \<Rightarrow>
                     if pDhtpvt = NULL then Some (DHT_MALLOC_FAILED, Some nm1, h1, ppDht)
                     else case malloc_dht h1 of (pDht, h2) \<Rightarrow>
                       if pDht = NULL
                       then Some (DHT_MALLOC_FAILED, Some nm1, free h2 pDhtpvt, ppDht)
                       else if \<not> set_pull_mode_ok g pinId
                       then Some (DHT_FAILED_TO_SET_PIN_MODE, Some nm1,
                                  free (free h2 pDhtpvt) pDht, ppDht)
                       else case (store h2 pDhtpvt, store h2 pDht) of
                         (Some (PvtObj pvt), Some (DhtObj d)) \<Rightarrow>
                           let h3 = h2\<lparr>store := (store h2)
                                      (pDhtpvt \<mapsto> PvtObj (pvt\<lparr>pDhtAddress := pDht\<rparr>))\<rparr>;
                               d1 = d\<lparr>pin := pinId\<rparr>;
                               d2 = d1\<lparr>pc := 0\<rparr>;
                               d3 = d2\<lparr>opaque := pDhtpvt\<rparr>;
                               h4 = h3\<lparr>store := (store h3)(pDht \<mapsto> DhtObj d3)\<rparr>
                           in Some (DHT_OK, Some nm1, h4, Some pDht)
                       | _ \<Rightarrow> None))"

section \<open>\<open>dhtCleanup\<close>\<close>

text \<open>
  \<open>ppDht\<close> is as in \<open>dhtInitialize\<close>.  Dereferencing a pointer that is not the
  address of a live block of the right type is undefined behaviour (\<open>None\<close>).
\<close>

definition dhtCleanup ::
  "heap \<Rightarrow> addr option \<Rightarrow> (dht_result_t \<times> heap \<times> addr option) option" where
  "dhtCleanup h ppDht =
     (case ppDht of
        None \<Rightarrow> Some (DHT_INVALID_INPUT, h, ppDht)
      | Some p \<Rightarrow>
          if p = NULL then Some (DHT_INVALID_INPUT, h, ppDht)
          else case store h p of
            Some (DhtObj d) \<Rightarrow>
              (case store h (opaque d) of
                 Some (PvtObj pvt) \<Rightarrow>
                   if pDhtAddress pvt \<noteq> p then Some (DHT_INVALID_INPUT, h, ppDht)
                   else Some (DHT_OK, free h p, Some NULL)
               | _ \<Rightarrow> None)
          | _ \<Rightarrow> None)"

section \<open>The protocol engine \<open>dhtReadRawData\<close>\<close>

text \<open>
  Every wait of the engine is the loop
  \<^verbatim>\<open>while (counter++ < budget && (prevState = gpio_get_level(pin)) == waitfor) ets_delay_us(1);\<close>
  The comparison reads the counter before the increment; the line is sampled only when
  the comparison holds.  \<open>prevState\<close> is declared without a value, which is \<open>None\<close>.
  \<open>pos\<close> counts the samples taken so far.
\<close>

function poll ::
  "(nat \<Rightarrow> level) \<Rightarrow> level \<Rightarrow> int \<Rightarrow> int \<Rightarrow> level option \<Rightarrow> nat
     \<Rightarrow> int \<times> level option \<times> nat" where
  "poll line waitfor budget counter prevState pos =
     (if counter < budget then
        if line pos = waitfor
        then poll line waitfor budget (counter + 1) (Some (line pos)) (pos + 1)
        else (counter + 1, Some (line pos), pos + 1)
      else (counter + 1, prevState, pos))"
  by pat_completeness auto
termination
  by (relation "measure (\<lambda>(line, waitfor, budget, counter, prevState, pos). nat (budget - counter))")
     auto

declare poll.simps [simp del]

definition BEGIN_READ_CYCLE_DHT_LOW :: int where
  "BEGIN_READ_CYCLE_DHT_LOW = 80"

definition BEGIN_READ_CYCLE_DHT_HIGH :: int where
  "BEGIN_READ_CYCLE_DHT_HIGH = 80"

definition BEGIN_DATA_READ_DHT_ATTENTION :: int where
  "BEGIN_DATA_READ_DHT_ATTENTION = 50"

definition BEGIN_DATA_RECEIVE_DHT_DATA :: int where
  "BEGIN_DATA_RECEIVE_DHT_DATA = 70"

text \<open>The loop \<^verbatim>\<open>for (int x = 0; x < 40; x++)\<close> that receives the forty bits.\<close>

function dhtReadBits ::
  "(nat \<Rightarrow> level) \<Rightarrow> int \<Rightarrow> u8 list \<Rightarrow> level option \<Rightarrow> nat
     \<Rightarrow> dht_result_t \<times> u8 list \<times> nat" where
  "dhtReadBits line x b prevState pos =
     (if x < 40 then
        case poll line DHT_LOW BEGIN_DATA_READ_DHT_ATTENTION 0 prevState pos of
          (counter1, prev1, pos1) \<Rightarrow>
            if prev1 = Some DHT_LOW then (DHT_SENSOR_DID_NOT_SWITCH_TO_HIGH, b, pos1)
            else case poll line DHT_HIGH BEGIN_DATA_RECEIVE_DHT_DATA 0 prev1 pos1 of
              (counter2, prev2, pos2) \<Rightarrow>
                if prev2 = Some DHT_HIGH then (DHT_SENSOR_DID_NOT_SWITCH_TO_LOW, b, pos2)
                else dhtReadBits line (x + 1)
                       (b[nat (40 - (x + 1)) := of_int counter2]) prev2 pos2
      else (DHT_OK, b, pos))"
  by pat_completeness auto
termination
  by (relation "measure (\<lambda>(line, x, b, prevState, pos). nat (40 - x))") auto

declare dhtReadBits.simps [simp del]

text \<open>
  \<open>dhtReadRawData\<close>: the start signal, the two acknowledge phases and the bit loop.
  The handle is passed by pointer and is returned as the call leaves it, next to the
  buffer.
\<close>

definition dhtReadRawData ::
  "platform \<Rightarrow> dht_t \<Rightarrow> u8 list \<Rightarrow> dht_result_t \<times> dht_t \<times> u8 list" where
  "dhtReadRawData g pDht b =
     (if \<not> set_direction_ok g (pin pDht) GPIO_MODE_OUTPUT
      then (DHT_FAILED_TO_SET_PIN_DIRECTION, pDht, b)
      else if \<not> set_level_ok g (pin pDht) DHT_LOW
      then (DHT_FAILED_TO_SET_PIN_LEVEL, pDht, b)
      else if \<not> set_level_ok g (pin pDht) DHT_HIGH
      then (DHT_FAILED_TO_SET_PIN_LEVEL, pDht, b)
      else if \<not> set_direction_ok g (pin pDht) GPIO_MODE_INPUT
      then (DHT_FAILED_TO_SET_PIN_DIRECTION, pDht, b)
      else case poll (get_level g (pin pDht)) DHT_LOW BEGIN_READ_CYCLE_DHT_LOW 0 None 0 of
        (counter1, prev1, pos1) \<Rightarrow>
          if prev1 = Some DHT_LOW then (DHT_SENSOR_DID_NOT_SWITCH_TO_HIGH, pDht, b)
          else case poll (get_level g (pin pDht)) DHT_HIGH BEGIN_READ_CYCLE_DHT_HIGH 0 prev1 pos1 of
            (counter2, prev2, pos2) \<Rightarrow>
              if prev2 = Some DHT_HIGH then (DHT_SENSOR_DID_NOT_SWITCH_TO_LOW, pDht, b)
              else case dhtReadBits (get_level g (pin pDht)) 0 b prev2 pos2 of
                (result, b', pos') \<Rightarrow> (result, pDht, b'))"

section \<open>\<open>dhtRead\<close>\<close>

text \<open>
  \<open>ticks\<close> is the value \<open>xTaskGetTickCount\<close> returns in this call.  A pointer
  argument is \<open>None\<close> when it is \<open>NULL\<close> and otherwise the structure it points to;
  both structures are returned as the call leaves them.  The subtraction
  \<open>ticks - pDht->pc\<close> is a \<open>TickType_t\<close> subtraction and wraps.
\<close>

definition dhtRead ::
  "platform \<Rightarrow> u32 \<Rightarrow> dht_t option \<Rightarrow> dht_data_t option
     \<Rightarrow> dht_result_t \<times> dht_t option \<times> dht_data_t option" where
  "dhtRead g ticks pDht outdata =
     (case pDht of
        None \<Rightarrow> (DHT_INVALID_INPUT, pDht, outdata)
      | Some d \<Rightarrow>
          (case outdata of
             None \<Rightarrow> (DHT_INVALID_INPUT, pDht, outdata)
           | Some out \<Rightarrow>
               if ticks - pc d < pdMS_TO_TICKS (tick_rate_hz g) 2000
               then (DHT_READ_QUERY_TOO_FREQUENT, pDht, outdata)
               else case dhtReadRawData g d (replicate 40 0) of
                 (result, d', b) \<Rightarrow>
                   if result = DHT_OK
                   then (case dhtProcessRawData b out of
                           (result', out') \<Rightarrow> (result', Some d', Some out'))
                   else (result, Some d', Some out)))"

section \<open>The bit periods as the specification words them\<close>

text \<open>
  \<open>window line pos n\<close> is the next \<open>n\<close> samples of the line from sample \<open>pos\<close> on.
  One bit period, from the words of the specification: the line has to leave low within
  a budget of 50 samples, else the read fails with
  \<open>DHT_SENSOR_DID_NOT_SWITCH_TO_HIGH\<close>; it then has to return low within a ceiling of 70
  samples, else the read fails with \<open>DHT_SENSOR_DID_NOT_SWITCH_TO_LOW\<close>; the duration
  of the bit is the number of samples of the high phase, up to and including the sample
  that sees the line low.  The result is the duration and the position of the next
  period.
\<close>

definition window :: "(nat \<Rightarrow> level) \<Rightarrow> nat \<Rightarrow> nat \<Rightarrow> level list" where
  "window line pos n = map (\<lambda>i. line (pos + i)) [0..<n]"

definition spec_bit_period :: "(nat \<Rightarrow> level) \<Rightarrow> nat \<Rightarrow> dht_result_t + nat \<times> nat" where
  "spec_bit_period line pos =
     (let lows = takeWhile (\<lambda>s. s = DHT_LOW) (window line pos 50)
      in if length lows = 50 then Inl DHT_SENSOR_DID_NOT_SWITCH_TO_HIGH
         else
           let pos1 = pos + length lows + 1;
               highs = takeWhile (\<lambda>s. s = DHT_HIGH) (window line pos1 70)
           in if length highs = 70 then Inl DHT_SENSOR_DID_NOT_SWITCH_TO_LOW
              else Inr (length highs + 1, pos1 + length highs + 1))"

text \<open>\<open>n\<close> bit periods in a row: the first failure, or the durations in order of arrival.\<close>

fun spec_bit_periods :: "(nat \<Rightarrow> level) \<Rightarrow> nat \<Rightarrow> nat \<Rightarrow> dht_result_t + nat list" where
  "spec_bit_periods line pos 0 = Inr []"
| "spec_bit_periods line pos (Suc n) =
     (case spec_bit_period line pos of
        Inl e \<Rightarrow> Inl e
      | Inr (c, pos') \<Rightarrow>
          (case spec_bit_periods line pos' n of
             Inl e \<Rightarrow> Inl e
           | Inr cs \<Rightarrow> Inr (c # cs)))"

section \<open>Concrete inputs\<close>

text \<open>
  A line that repeats, every twelve samples, one low sample, three high samples, one low
  sample and seven high samples.
\<close>

definition line0 :: "nat \<Rightarrow> level" where
  "line0 k = (if k mod 12 = 0 \<or> k mod 12 = 4 then DHT_LOW else DHT_HIGH)"

text \<open>
  A board on which every pin below 17 is valid and every GPIO call succeeds, with a tick
  rate of 100 Hz; an empty heap whose fresh blocks are filled with the byte \<open>0xA5\<close>; the
  name \<open>abc\<close> with its terminator; and the heap that \<open>dhtInitialize\<close> leaves when
  the allocator hands out the addresses 16 and 48.
\<close>

definition board :: platform where
  "board =
     \<lparr>valid_gpio = (\<lambda>p. p < 17), set_pull_mode_ok = (\<lambda>p. True),
      set_direction_ok = (\<lambda>p m. True), set_level_ok = (\<lambda>p l. True),
      get_level = (\<lambda>p. line0), tick_rate_hz = 100\<rparr>"

definition junk_heap :: "addr list \<Rightarrow> heap" where
  "junk_heap as =
     \<lparr>store = Map.empty, avail = as,
      junk_dht = (\<lambda>a. \<lparr>name = replicate 32 0xA5, pin = 0xA5,
                       opaque = 0xA5A5A5A5, pc = 0xA5A5A5A5\<rparr>),
      junk_pvt = (\<lambda>a. \<lparr>pDhtAddress = 0xA5A5A5A5, successCount = 0xA5A5A5A5,
                       errorCount = 0xA5A5A5A5\<rparr>)\<rparr>"

definition abc :: "u8 list" where
  "abc = [0x61, 0x62, 0x63, 0]"

definition created_heap :: heap where
  "created_heap =
     (junk_heap [])\<lparr>store :=
        [16 \<mapsto> PvtObj \<lparr>pDhtAddress = 48, successCount = 0xA5A5A5A5,
                        errorCount = 0xA5A5A5A5\<rparr>,
         48 \<mapsto> DhtObj \<lparr>name = replicate 32 0xA5, pin = 5, opaque = 16, pc = 0\<rparr>]\<rparr>"



section \<open>Evaluating the decoder\<close>

lemma shift_in_step:
  "lo < x \<Longrightarrow> shift_in b lo x acc =
     shift_in b lo (x - 1) (push_bit (if lo + 1 < x then 1 else 0 :: nat) (acc OR resolve (b ! nat x)))"
  by (subst shift_in.simps) (simp add: Let_def)

lemma shift_in_stop: "\<not> lo < x \<Longrightarrow> shift_in b lo x acc = acc"
  by (subst shift_in.simps) simp

lemmas decode_eval =
  dhtProcessRawData_def shift_in_step shift_in_stop resolve_def Let_def
  encode_def encode_field_def field_checksum_def upt_rec mask_eq_exp_minus_1

section \<open>The decoder on frames with the sign bit clear\<close>

lemma bit_resolve: "bit (resolve c) k \<longleftrightarrow> k = 0 \<and> 19 < c"
  by (simp add: resolve_def bit_simps)

lemma shift_in_bits:
  "k < 32 \<Longrightarrow>
   bit (shift_in b lo (lo + 1 + int n) acc) k \<longleftrightarrow>
     (if k < n then 19 < b ! nat (lo + 1 + int k)
      else if k = n then bit acc 0 \<or> 19 < b ! nat (lo + 1 + int n)
      else bit acc (k - n))"
proof (induction n arbitrary: acc k)
  case 0
  show ?case
    by (simp add: shift_in_step shift_in_stop bit_or_iff bit_resolve)
next
  case (Suc n)
  let ?top = "b ! nat (lo + 1 + int (Suc n))"
  let ?acc2 = "push_bit 1 (acc OR resolve ?top) :: u32"
  have step: "shift_in b lo (lo + 1 + int (Suc n)) acc = shift_in b lo (lo + 1 + int n) ?acc2"
    using shift_in_step [of lo "lo + 1 + int (Suc n)" b acc] by (simp add: ac_simps)
  note IH = Suc.IH [OF Suc.prems, of ?acc2]
  have b0: "\<not> bit ?acc2 0"
    unfolding bit_push_bit_iff by simp
  have bj: "bit ?acc2 (Suc j) \<longleftrightarrow> Suc j < 32 \<and> (bit acc j \<or> (j = 0 \<and> 19 < ?top))" for j
    unfolding bit_push_bit_iff bit_or_iff bit_resolve by (auto simp: bit_imp_le_length)
  consider "k < n" | "k = n" | "k = Suc n" | "Suc n < k" by linarith
  then show ?case
  proof cases
    case 1
    then show ?thesis unfolding step IH by simp
  next
    case 2
    then show ?thesis unfolding step IH using b0 by simp
  next
    case 3
    then have "k - n = Suc 0" by simp
    then show ?thesis unfolding step IH using 3 Suc.prems bj [of 0] by simp
  next
    case 4
    then obtain j where j: "k - n = Suc j" "k - Suc n = j" "j \<noteq> 0"
      by (metis Suc_diff_Suc diff_is_0_eq' not_less zero_less_diff Suc_lessD less_imp_le)
    have "Suc j < 32" using Suc.prems j by linarith
    then show ?thesis unfolding step IH using 4 j bj [of j] by simp
  qed
qed

lemma nth_encode_checksum:
  "k < 8 \<Longrightarrow> encode s l h t c ! k = (if bit c k then l else s)"
  by (simp add: encode_def encode_field_def nth_append)

lemma nth_encode_temperature:
  "k < 16 \<Longrightarrow> encode s l h t c ! (8 + k) = (if bit t k then l else s)"
  by (simp add: encode_def encode_field_def nth_append)

lemma nth_encode_humidity:
  "k < 16 \<Longrightarrow> encode s l h t c ! (24 + k) = (if bit h k then l else s)"
  by (simp add: encode_def encode_field_def nth_append)

lemma threshold_rule:
  "s \<le> 19 \<Longrightarrow> 19 < l \<Longrightarrow> 19 < (if c then l else s) \<longleftrightarrow> c" for s l :: u8
  by auto

lemma rh_encode:
  assumes "s \<le> 19" "19 < l"
  shows "shift_in (encode s l h t c) 23 39 0 = ucast h"
proof (rule bit_word_eqI)
  fix k assume "k < LENGTH(32)"
  then have k: "k < 32" by simp
  have top: "encode s l h t c ! 39 = (if bit h 15 then l else s)"
    using nth_encode_humidity [of 15 s l h t c] by simp
  have "nat (24 + int j) = 24 + j" for j by simp
  then show "bit (shift_in (encode s l h t c) 23 39 0) k \<longleftrightarrow> bit (ucast h :: u32) k"
    using shift_in_bits [OF k, of "encode s l h t c" 23 15 0] assms
    by (auto simp: bit_ucast_iff nth_encode_humidity top threshold_rule dest: bit_imp_le_length)
qed

lemma temp_encode:
  assumes "s \<le> 19" "19 < l"
  shows "shift_in (encode s l h t c) 7 22 0 = ucast (take_bit 15 t)"
proof (rule bit_word_eqI)
  fix k assume "k < LENGTH(32)"
  then have k: "k < 32" by simp
  have top: "encode s l h t c ! 22 = (if bit t 14 then l else s)"
    using nth_encode_temperature [of 14 s l h t c] by simp
  have "nat (8 + int j) = 8 + j" for j by simp
  then show "bit (shift_in (encode s l h t c) 7 22 0) k \<longleftrightarrow> bit (ucast (take_bit 15 t) :: u32) k"
    using shift_in_bits [OF k, of "encode s l h t c" 7 14 0] assms
    by (auto simp: bit_ucast_iff bit_take_bit_iff nth_encode_temperature top threshold_rule)
qed

lemma checksum_encode:
  assumes "s \<le> 19" "19 < l"
  shows "shift_in (encode s l h t c) (- 1) 7 0 = ucast c"
proof (rule bit_word_eqI)
  fix k assume "k < LENGTH(32)"
  then have k: "k < 32" by simp
  show "bit (shift_in (encode s l h t c) (- 1) 7 0) k \<longleftrightarrow> bit (ucast c :: u32) k"
    using shift_in_bits [OF k, of "encode s l h t c" "- 1" 7 0] assms
    by (auto simp: bit_ucast_iff nth_encode_checksum threshold_rule dest: bit_imp_le_length)
qed

lemma sign_encode:
  assumes "s \<le> 19" "19 < l"
  shows "19 < encode s l h t c ! 23 \<longleftrightarrow> bit t 15"
  using nth_encode_temperature [of 15 s l h t c] assms by (simp add: threshold_rule)

lemma mask_ff: "(0xff :: u32) = mask 8"
  by (simp add: mask_eq_exp_minus_1)

lemma mask_ff00: "(0xff00 :: u32) = push_bit 8 (mask 8)"
  by (simp add: mask_eq_exp_minus_1)

lemma high_byte:
  "drop_bit 8 ((ucast h :: u32) AND 0xff00) = ucast (ucast (drop_bit 8 h) :: u8)" for h :: u16
  unfolding mask_ff00
  by (rule bit_word_eqI) (auto simp: bit_simps)

lemma low_byte: "(ucast h :: u32) AND 0xff = ucast (ucast h :: u8)" for h :: u16
  unfolding mask_ff
  by (rule bit_word_eqI) (auto simp: bit_simps)

lemma byte_sum:
  "(ucast a + ucast b + ucast c + ucast d :: u32) AND 0xff = ucast (a + b + c + d)"
  for a b c d :: u8
proof -
  have A: "unat a < 256" "unat b < 256" "unat c < 256" "unat d < 256"
    using unsigned_less [of a, where ?'a = nat] unsigned_less [of b, where ?'a = nat]
          unsigned_less [of c, where ?'a = nat] unsigned_less [of d, where ?'a = nat]
    by simp_all
  have "unat ((ucast a + ucast b + ucast c + ucast d :: u32) AND mask 8) = unat (ucast (a + b + c + d) :: u32)"
    using A
    apply (simp add: unsigned_and_eq unat_word_ariths unsigned_ucast_eq take_bit_eq_mod flip: take_bit_eq_mask)
    apply presburger
    done
  then show ?thesis unfolding mask_ff by (simp add: word_unat_eq_iff)
qed

lemma fixed_point_nat:
  fixes t :: u16
  shows "(ucast ((ucast t :: u32) div 10) :: u16) = of_nat (unat t div 10)"
    and "(ucast (((ucast t :: u32) * 10) mod 100) :: u16) = of_nat (unat t * 10 mod 100)"
    and "(ucast ((ucast t :: u32) mod 10) :: u16) = of_nat (unat t mod 10)"
    and "(ucast ((ucast t :: u32) * 100 div 50 * 9 div 100 + 32) :: u16) = of_nat (unat t * 100 div 50 * 9 div 100 + 32)"
    and "(ucast ((ucast t :: u32) * 100 div 50 * 9 mod 100) :: u16) = of_nat (unat t * 100 div 50 * 9 mod 100)"
proof -
  have t: "unat t < 65536" using unsigned_less [of t, where ?'a = nat] by simp
  have u: "unat (ucast t :: u32) = unat t" using t by (simp add: unsigned_ucast_eq take_bit_eq_mod)
  have m10: "unat ((ucast t :: u32) * 10) = unat t * 10"
    using t by (simp add: unat_word_ariths u)
  have m100: "unat ((ucast t :: u32) * 100) = unat t * 100"
    using t by (simp add: unat_word_ariths u)
  have d50: "unat ((ucast t :: u32) * 100 div 50) = unat t * 100 div 50"
    using t by (simp add: unat_word_ariths unat_div u)
  have m9: "unat ((ucast t :: u32) * 100 div 50 * 9) = unat t * 100 div 50 * 9"
    using t by (simp add: unat_word_ariths unat_div u)
  have cast: "(ucast w :: u16) = of_nat (unat w)" for w :: u32
    by simp
  show "(ucast ((ucast t :: u32) div 10) :: u16) = of_nat (unat t div 10)"
    unfolding cast by (simp add: unat_div u)
  show "(ucast (((ucast t :: u32) * 10) mod 100) :: u16) = of_nat (unat t * 10 mod 100)"
    unfolding cast using t by (simp add: unat_word_ariths unat_mod u)
  show "(ucast ((ucast t :: u32) mod 10) :: u16) = of_nat (unat t mod 10)"
    unfolding cast by (simp add: unat_mod u)
  have "unat ((ucast t :: u32) * 100 div 50 * 9 div 100 + 32) = unat t * 100 div 50 * 9 div 100 + 32"
    using t by (simp add: unat_word_ariths unat_div u)
  then show "(ucast ((ucast t :: u32) * 100 div 50 * 9 div 100 + 32) :: u16) = of_nat (unat t * 100 div 50 * 9 div 100 + 32)"
    unfolding cast by simp
  show "(ucast ((ucast t :: u32) * 100 div 50 * 9 mod 100) :: u16) = of_nat (unat t * 100 div 50 * 9 mod 100)"
    unfolding cast using t by (simp add: unat_word_ariths unat_div unat_mod u)
qed


lemma ucast_u8_inj: "(ucast a :: u32) = ucast b \<longleftrightarrow> a = b" for a b :: u8
proof
  assume "(ucast a :: u32) = ucast b"
  then have "unat (ucast a :: u32) = unat (ucast b :: u32)" by simp
  then show "a = b"
    using unsigned_less [of a, where ?'a = nat] unsigned_less [of b, where ?'a = nat]
    by (simp add: unsigned_ucast_eq take_bit_eq_mod word_unat_eq_iff)
qed simp

lemma calculated_checksum:
  "(drop_bit 8 ((ucast h :: u32) AND 0x0000ff00) + ((ucast h :: u32) AND 0x000000ff)
     + drop_bit 8 ((ucast t :: u32) AND 0x0000ff00) + ((ucast t :: u32) AND 0x000000ff))
     AND 0x0000ff
   = ucast (field_checksum h t)" for h t :: u16
  unfolding high_byte low_byte byte_sum field_checksum_def ..

lemma take_bit_15: "\<not> bit t 15 \<Longrightarrow> take_bit 15 t = t" for t :: u16
  by (rule bit_word_eqI) (auto simp: bit_take_bit_iff less_Suc_eq numeral_eq_Suc)

text \<open>
  The decoder on every frame whose temperature field has the sign bit clear, for every
  pair of durations on the two sides of the threshold: the frame is accepted exactly when
  its checksum is the low byte of the sum of the four field bytes; the measurement is then
  the one of the specification, and nothing is written otherwise.
\<close>

theorem decode_sign_clear:
  assumes "s \<le> 19" and "19 < l" and "\<not> bit t 15"
  shows "dhtProcessRawData (encode s l h t c) out =
           (if c = field_checksum h t
            then (DHT_OK, spec_measurement (unat h) (unat t))
            else (DHT_INVALID_CHECKSUM, out))"
proof -
  let ?b = "encode s l h t c"
  have rh: "shift_in ?b 23 39 0 = ucast h"
    using assms by (simp add: rh_encode)
  have tp: "shift_in ?b 7 22 0 = ucast t"
    using assms by (simp add: temp_encode take_bit_15)
  have cs: "shift_in ?b (- 1) 7 0 = ucast c"
    using assms by (simp add: checksum_encode)
  have neg: "(19 < ?b ! 23) = False"
    using assms by (simp add: sign_encode)
  show ?thesis
    unfolding dhtProcessRawData_def Let_def rh tp cs neg if_False calculated_checksum
    by (simp add: ucast_u8_inj fixed_point_nat spec_measurement_def)
qed

lemma invalid_checksum_writes_nothing:
  "fst (dhtProcessRawData b out) = DHT_INVALID_CHECKSUM \<Longrightarrow> snd (dhtProcessRawData b out) = out"
  by (simp add: dhtProcessRawData_def Let_def split: if_splits)

section \<open>Properties of the decoder\<close>

text \<open>
  C2 (negative temperatures).  The specification asks that a frame with the sign bit set, a
  magnitude \<open>M\<close> and the checksum of the transmitted bytes decodes to
  \<open>-M/10\<close>.  The code negates the magnitude in a \<open>uint32_t\<close> before it sums the
  bytes, and leaves the sign bit out of the sum.  Take humidity 653 and the temperature
  field \<open>0x8069\<close> (sign bit, magnitude 105, that is -10.5 degrees); the transmitted
  bytes sum to \<open>0x78\<close>.  Whatever checksum the frame carries, the decoder rejects it
  with \<open>DHT_INVALID_CHECKSUM\<close>, except for the checksum \<open>0x25\<close>, and then the
  Celsius whole part is 39311, the low 16 bits of \<open>(2^32 - 105) / 10\<close>, not -10.
  The frame of the magnitude 0 with the sign bit set and the checksum of its own bytes is
  rejected as well.
\<close>

theorem negative_temperature_frame_rejected:
  "field_checksum 653 0x8069 = 0x78
   \<and> dhtProcessRawData (encode 15 45 653 0x8069 c) out0
     = (if c = 0x25
        then (DHT_OK, \<lparr>faTempWhole = 63242, faTempFraction = 15, csTempWhole = 39311,
                        csTempFraction = 46, rhWhole = 65, rhFraction = 3\<rparr>)
        else (DHT_INVALID_CHECKSUM, out0))
   \<and> dhtProcessRawData (encode 15 45 653 0x8000 (field_checksum 653 0x8000)) out0
     = (DHT_INVALID_CHECKSUM, out0)"
proof -
  let ?b = "encode 15 45 653 0x8069 c"
  have rh: "shift_in ?b 23 39 0 = 653"
    using rh_encode [of 15 45 653 "0x8069" c] by simp
  have tp: "shift_in ?b 7 22 0 = 105"
    using temp_encode [of 15 45 653 "0x8069" c] by simp
  have cs: "shift_in ?b (- 1) 7 0 = ucast c"
    by (simp add: checksum_encode)
  have neg: "(19 < ?b ! 23) = True"
    using sign_encode [of 15 45 653 "0x8069" c] by simp
  have c: "(ucast c :: u32) = 37 \<longleftrightarrow> c = 0x25"
    using ucast_u8_inj [of c "0x25"] by simp
  have "dhtProcessRawData ?b out0
     = (if c = 0x25
        then (DHT_OK, \<lparr>faTempWhole = 63242, faTempFraction = 15, csTempWhole = 39311,
                        csTempFraction = 46, rhWhole = 65, rhFraction = 3\<rparr>)
        else (DHT_INVALID_CHECKSUM, out0))"
    unfolding dhtProcessRawData_def Let_def rh tp cs neg if_True
    by (simp add: c mask_eq_exp_minus_1)
  moreover have "field_checksum 653 0x8069 = 0x78"
    by (simp add: field_checksum_def)
  moreover have "dhtProcessRawData (encode 15 45 653 0x8000 (field_checksum 653 0x8000)) out0
     = (DHT_INVALID_CHECKSUM, out0)"
    by (simp add: decode_eval)
  ultimately show ?thesis by simp
qed

text \<open>
  C3 (checksum).  The specification asks for \<open>DHT_INVALID_CHECKSUM\<close> exactly when the checksum
  field differs from the byte sum of the humidity and temperature fields as transmitted.
  At humidity 0 and the temperature field \<open>0x8001\<close> (-0.1 degrees) the transmitted
  bytes sum to \<open>0x81\<close>, and the decoder returns \<open>DHT_INVALID_CHECKSUM\<close> exactly when
  the checksum field differs from \<open>0xFE\<close>: the frame carrying \<open>0x81\<close> is rejected,
  with the output untouched, and the frame carrying \<open>0xFE\<close> is accepted.
\<close>

theorem checksum_not_over_transmitted_bytes:
  "field_checksum 0 0x8001 = 0x81
   \<and> (fst (dhtProcessRawData (encode 15 45 0 0x8001 c) out0) = DHT_INVALID_CHECKSUM) = (c \<noteq> 0xFE)
   \<and> dhtProcessRawData (encode 15 45 0 0x8001 0x81) out0 = (DHT_INVALID_CHECKSUM, out0)
   \<and> fst (dhtProcessRawData (encode 15 45 0 0x8001 0xFE) out0) = DHT_OK"
proof -
  let ?b = "encode 15 45 0 0x8001 c"
  have rh: "shift_in ?b 23 39 0 = 0"
    using rh_encode [of 15 45 0 "0x8001" c] by simp
  have tp: "shift_in ?b 7 22 0 = 1"
    using temp_encode [of 15 45 0 "0x8001" c] by simp
  have cs: "shift_in ?b (- 1) 7 0 = ucast c"
    by (simp add: checksum_encode)
  have neg: "(19 < ?b ! 23) = True"
    using sign_encode [of 15 45 0 "0x8001" c] by simp
  have c: "(ucast c :: u32) = 254 \<longleftrightarrow> c = 0xFE"
    using ucast_u8_inj [of c "0xFE"] by simp
  have "(fst (dhtProcessRawData ?b out0) = DHT_INVALID_CHECKSUM) = (c \<noteq> 0xFE)"
    unfolding dhtProcessRawData_def Let_def rh tp cs neg if_True
    by (simp add: c mask_eq_exp_minus_1)
  moreover have "field_checksum 0 0x8001 = 0x81"
    by (simp add: field_checksum_def)
  moreover have "dhtProcessRawData (encode 15 45 0 0x8001 0x81) out0 = (DHT_INVALID_CHECKSUM, out0)"
    by (simp add: decode_eval)
  moreover have "fst (dhtProcessRawData (encode 15 45 0 0x8001 0xFE) out0) = DHT_OK"
    by (simp add: decode_eval)
  ultimately show ?thesis by simp
qed

text \<open>
  C4 (round trip).  The specification asks that every consistent triple is recovered.  The triple
  of humidity 998, temperature field \<open>0x8190\<close> (-40.0 degrees) and its checksum
  \<open>0xFA\<close> is not: the decoder returns \<open>DHT_INVALID_CHECKSUM\<close> and writes nothing.
\<close>

theorem negative_triple_not_recovered:
  "field_checksum 998 0x8190 = 0xFA
   \<and> dhtProcessRawData (encode 15 45 998 0x8190 0xFA) out0 = (DHT_INVALID_CHECKSUM, out0)"
  by (simp add: decode_eval)

text \<open>
  C6 (scenario 65.3 percent, 23.1 degrees), with the Celsius fraction of the code: for
  every pair of durations on
  the two sides of the threshold, the frame of humidity 653, temperature 231 and
  checksum \<open>0x76\<close>, the low byte of \<open>0x02 + 0x8D + 0x00 + 0xE7\<close>, passes the checksum
  and decodes to humidity 65 and 3, Celsius 23 and 10 (the fraction is
  \<open>(231 * 10) mod 100\<close>, in hundredths), Fahrenheit 73 and 58.
\<close>

theorem scenario_653_231_decodes:
  "short \<le> 19 \<Longrightarrow> 19 < long \<Longrightarrow>
   field_checksum 653 231 = 0x76
   \<and> dhtProcessRawData (encode short long 653 231 0x76) out0 =
       (DHT_OK, \<lparr>faTempWhole = 73, faTempFraction = 58, csTempWhole = 23,
                  csTempFraction = 10, rhWhole = 65, rhFraction = 3\<rparr>)"
  by (simp add: decode_eval)

text \<open>The scenario with the durations 15 and 45.\<close>

theorem scenario_653_231_decodes_witness:
  "(15 :: u8) \<le> 19 \<and> (19 :: u8) < 45
   \<and> dhtProcessRawData (encode 15 45 653 231 0x76) zero_data =
       (DHT_OK, \<lparr>faTempWhole = 73, faTempFraction = 58, csTempWhole = 23,
                  csTempFraction = 10, rhWhole = 65, rhFraction = 3\<rparr>)"
  using scenario_653_231_decodes [of 15 45 zero_data] by simp

text \<open>
  C6 in the words of the specification gives the Celsius fraction 1.  The decoded
  fraction of the scenario frame is not 1, so the six values do not hold together.
\<close>

theorem scenario_653_231_celsius_fraction_not_1:
  "\<not> (fst (dhtProcessRawData (encode 15 45 653 231 (field_checksum 653 231)) zero_data) = DHT_OK
      \<and> rhWhole (snd (dhtProcessRawData (encode 15 45 653 231 (field_checksum 653 231)) zero_data)) = 65
      \<and> rhFraction (snd (dhtProcessRawData (encode 15 45 653 231 (field_checksum 653 231)) zero_data)) = 3
      \<and> csTempWhole (snd (dhtProcessRawData (encode 15 45 653 231 (field_checksum 653 231)) zero_data)) = 23
      \<and> csTempFraction (snd (dhtProcessRawData (encode 15 45 653 231 (field_checksum 653 231)) zero_data)) = 1
      \<and> faTempWhole (snd (dhtProcessRawData (encode 15 45 653 231 (field_checksum 653 231)) zero_data)) = 73)"
  by (simp add: decode_eval)

section \<open>The bit loop against the specification\<close>

lemma window_0: "window line pos 0 = []"
  by (simp add: window_def)

lemma window_Suc: "window line pos (Suc n) = line pos # window line (Suc pos) n"
  by (simp add: window_def map_upt_Suc del: upt_Suc)

lemma length_window: "length (window line pos n) = n"
  by (simp add: window_def)

lemma poll_run:
  "poll line w (counter + int n) counter prev pos =
     (let run = takeWhile (\<lambda>s. s = w) (window line pos n)
      in if length run = n
         then (counter + int n + 1, if 0 < n then Some w else prev, pos + n)
         else (counter + int (length run) + 1, Some (line (pos + length run)),
               pos + length run + 1))"
proof (induction n arbitrary: counter prev pos)
  case 0
  show ?case by (subst poll.simps) (simp add: window_0)
next
  case (Suc n)
  have budget: "counter + int (Suc n) = (counter + 1) + int n" by simp
  show ?case
  proof (cases "line pos = w")
    case False
    then show ?thesis by (subst poll.simps) (simp add: window_Suc)
  next
    case True
    have "poll line w (counter + int (Suc n)) counter prev pos =
          poll line w ((counter + 1) + int n) (counter + 1) (Some (line pos)) (pos + 1)"
      using True by (subst poll.simps) (simp add: ac_simps)
    also note Suc.IH [of "counter + 1" "Some (line pos)" "pos + 1"]
    finally show ?thesis
      using True by (simp add: window_Suc Let_def)
  qed
qed

lemma poll_low:
  "poll line DHT_LOW 50 0 prev pos =
     (let lows = takeWhile (\<lambda>s. s = DHT_LOW) (window line pos 50)
      in if length lows = 50 then (51, Some DHT_LOW, pos + 50)
         else (int (length lows) + 1, Some DHT_HIGH, pos + length lows + 1))"
proof -
  let ?lows = "takeWhile (\<lambda>s. s = DHT_LOW) (window line pos 50)"
  have "length ?lows < 50 \<longrightarrow> line (pos + length ?lows) \<noteq> DHT_LOW"
    using nth_length_takeWhile [of "\<lambda>s. s = DHT_LOW" "window line pos 50"]
    by (simp add: length_window window_def)
  moreover have "length ?lows \<le> 50"
    using length_takeWhile_le [of "\<lambda>s. s = DHT_LOW" "window line pos 50"]
    by (simp add: length_window)
  ultimately show ?thesis
    using poll_run [of line DHT_LOW 0 50 prev pos]
    by (cases "line (pos + length ?lows)") (auto simp: Let_def)
qed

lemma poll_high:
  "poll line DHT_HIGH 70 0 prev pos =
     (let highs = takeWhile (\<lambda>s. s = DHT_HIGH) (window line pos 70)
      in if length highs = 70 then (71, Some DHT_HIGH, pos + 70)
         else (int (length highs) + 1, Some DHT_LOW, pos + length highs + 1))"
proof -
  let ?highs = "takeWhile (\<lambda>s. s = DHT_HIGH) (window line pos 70)"
  have "length ?highs < 70 \<longrightarrow> line (pos + length ?highs) \<noteq> DHT_HIGH"
    using nth_length_takeWhile [of "\<lambda>s. s = DHT_HIGH" "window line pos 70"]
    by (simp add: length_window window_def)
  moreover have "length ?highs \<le> 70"
    using length_takeWhile_le [of "\<lambda>s. s = DHT_HIGH" "window line pos 70"]
    by (simp add: length_window)
  ultimately show ?thesis
    using poll_run [of line DHT_HIGH 0 70 prev pos]
    by (cases "line (pos + length ?highs)") (auto simp: Let_def)
qed

lemma dhtReadBits_done: "dhtReadBits line 40 b prev pos = (DHT_OK, b, pos)"
  by (subst dhtReadBits.simps) simp

lemma dhtReadBits_step:
  "n < 40 \<Longrightarrow>
   dhtReadBits line (40 - int (Suc n)) b prev pos =
     (let lows = takeWhile (\<lambda>s. s = DHT_LOW) (window line pos 50)
      in if length lows = 50 then (DHT_SENSOR_DID_NOT_SWITCH_TO_HIGH, b, pos + 50)
         else
           let pos1 = pos + length lows + 1;
               highs = takeWhile (\<lambda>s. s = DHT_HIGH) (window line pos1 70)
           in if length highs = 70 then (DHT_SENSOR_DID_NOT_SWITCH_TO_LOW, b, pos1 + 70)
              else dhtReadBits line (40 - int n) (b[n := of_nat (length highs) + 1])
                     (Some DHT_LOW) (pos1 + length highs + 1))"
proof -
  assume n: "n < 40"
  have idx: "nat (40 - (40 - int (Suc n) + 1)) = n" "40 - int (Suc n) + 1 = 40 - int n"
    by simp_all
  show ?thesis
    by (subst dhtReadBits.simps)
       (simp add: BEGIN_DATA_READ_DHT_ATTENTION_def BEGIN_DATA_RECEIVE_DHT_DATA_def
          poll_low poll_high Let_def idx)
qed

lemma dhtReadBits_periods:
  "n \<le> 40 \<Longrightarrow> length b = 40 \<Longrightarrow>
   (case spec_bit_periods line pos n of
      Inl e \<Rightarrow> fst (dhtReadBits line (40 - int n) b prev pos) = e
    | Inr cs \<Rightarrow>
        (\<exists>b' pos'. dhtReadBits line (40 - int n) b prev pos = (DHT_OK, b', pos')
           \<and> length b' = 40
           \<and> (\<forall>i<n. unat (b' ! (n - 1 - i)) = cs ! i)
           \<and> (\<forall>j. n \<le> j \<longrightarrow> j < 40 \<longrightarrow> b' ! j = b ! j)))"
proof (induction n arbitrary: b prev pos)
  case 0
  then show ?case by (simp add: dhtReadBits_done)
next
  case (Suc n)
  let ?lows = "takeWhile (\<lambda>s. s = DHT_LOW) (window line pos 50)"
  let ?pos1 = "pos + length ?lows + 1"
  let ?highs = "takeWhile (\<lambda>s. s = DHT_HIGH) (window line ?pos1 70)"
  let ?pos2 = "?pos1 + length ?highs + 1"
  let ?b1 = "b[n := of_nat (length ?highs) + 1]"
  have n: "n < 40" "n \<le> 40" using Suc.prems by simp_all
  note step = dhtReadBits_step [OF n(1), of line b prev pos]
  show ?case
  proof (cases "length ?lows = 50")
    case True
    then show ?thesis using step by (simp add: spec_bit_period_def Let_def)
  next
    case lows: False
    show ?thesis
    proof (cases "length ?highs = 70")
      case True
      then show ?thesis using step lows by (simp add: spec_bit_period_def Let_def)
    next
      case highs: False
      have period: "spec_bit_period line pos = Inr (length ?highs + 1, ?pos2)"
        using lows highs by (simp add: spec_bit_period_def Let_def)
      have run: "dhtReadBits line (40 - int (Suc n)) b prev pos =
                 dhtReadBits line (40 - int n) ?b1 (Some DHT_LOW) ?pos2"
        using step lows highs by (simp add: Let_def)
      have len1: "length ?b1 = 40" using Suc.prems by simp
      have "length ?highs \<le> 70"
        using length_takeWhile_le [of "\<lambda>s. s = DHT_HIGH" "window line ?pos1 70"]
        by (simp add: length_window)
      then have "unat (of_nat (length ?highs + 1) :: u8) = length ?highs + 1"
        by (simp add: unat_of_nat del: of_nat_add of_nat_Suc)
      then have stored: "unat (of_nat (length ?highs) + 1 :: u8) = length ?highs + 1"
        by (simp add: ac_simps)
      note IH = Suc.IH [OF n(2) len1, where pos = ?pos2 and prev = "Some DHT_LOW"]
      show ?thesis
      proof (cases "spec_bit_periods line ?pos2 n")
        case (Inl e)
        then show ?thesis using IH period run by simp
      next
        case (Inr cs)
        with IH obtain b' pos' where
          r: "dhtReadBits line (40 - int n) ?b1 (Some DHT_LOW) ?pos2 = (DHT_OK, b', pos')"
          and len: "length b' = 40"
          and bits: "\<forall>i<n. unat (b' ! (n - 1 - i)) = cs ! i"
          and frame: "\<forall>j. n \<le> j \<longrightarrow> j < 40 \<longrightarrow> b' ! j = ?b1 ! j"
          by auto
        have at_n: "unat (b' ! n) = length ?highs + 1"
          using frame n Suc.prems stored by simp
        have "\<forall>i<Suc n. unat (b' ! (Suc n - 1 - i)) = ((length ?highs + 1) # cs) ! i"
        proof (intro allI impI)
          fix i assume "i < Suc n"
          then show "unat (b' ! (Suc n - 1 - i)) = ((length ?highs + 1) # cs) ! i"
            using at_n bits by (cases i) auto
        qed
        moreover have "\<forall>j. Suc n \<le> j \<longrightarrow> j < 40 \<longrightarrow> b' ! j = b ! j"
          using frame by auto
        ultimately show ?thesis
          using Inr period run r len by simp
      qed
    qed
  qed
qed

lemma spec_bit_periods_line0:
  "spec_bit_periods line0 0 40 =
     Inr [3, 7, 3, 7, 3, 7, 3, 7, 3, 7, 3, 7, 3, 7, 3, 7, 3, 7, 3, 7,
          3, 7, 3, 7, 3, 7, 3, 7, 3, 7, 3, 7, 3, 7, 3, 7, 3, 7, 3, 7]"
  by code_simp

text \<open>
  C7 (bit acquisition).  For every line, every starting position and every 40-byte
  buffer, the loop of \<open>dhtReadRawData\<close> agrees with forty bit periods as the
  specification words them: it fails with the code of the first period that fails (the
  line does not leave low within 50 samples, or does not return low within 70 samples),
  and otherwise it returns \<open>DHT_OK\<close> with the duration of the \<open>i\<close>-th bit received at
  index \<open>39 - i\<close>.
\<close>

theorem bit_acquisition_loop:
  "length b = 40 \<Longrightarrow>
   (case spec_bit_periods line pos 40 of
      Inl e \<Rightarrow> fst (dhtReadBits line 0 b prev pos) = e
    | Inr cs \<Rightarrow>
        (\<exists>b' pos'. dhtReadBits line 0 b prev pos = (DHT_OK, b', pos')
           \<and> length b' = 40
           \<and> (\<forall>i<40. unat (b' ! (39 - i)) = cs ! i)))"
  using dhtReadBits_periods [where n = 40 and b = b and line = line and pos = pos and prev = prev]
  by (auto split: sum.splits)

text \<open>
  On the line \<open>line0\<close> the durations alternate between 3 and 7; the first is stored at
  index 39.
\<close>

theorem bit_acquisition_loop_witness:
  "fst (dhtReadBits line0 0 (replicate 40 0) None 0) = DHT_OK
   \<and> map unat (fst (snd (dhtReadBits line0 0 (replicate 40 0) None 0))) =
       [7, 3, 7, 3, 7, 3, 7, 3, 7, 3, 7, 3, 7, 3, 7, 3, 7, 3, 7, 3,
        7, 3, 7, 3, 7, 3, 7, 3, 7, 3, 7, 3, 7, 3, 7, 3, 7, 3, 7, 3]"
proof -
  define cs :: "nat list" where
    "cs = [3, 7, 3, 7, 3, 7, 3, 7, 3, 7, 3, 7, 3, 7, 3, 7, 3, 7, 3, 7,
           3, 7, 3, 7, 3, 7, 3, 7, 3, 7, 3, 7, 3, 7, 3, 7, 3, 7, 3, 7]"
  have lcs: "length cs = 40" by (simp add: cs_def)
  have periods: "spec_bit_periods line0 0 40 = Inr cs"
    by (simp only: cs_def spec_bit_periods_line0)
  have len0: "length (replicate 40 (0 :: u8)) = 40" by simp
  obtain b' pos' where
    run: "dhtReadBits line0 0 (replicate 40 0) None 0 = (DHT_OK, b', pos')"
    and len: "length b' = 40"
    and bits: "\<forall>i<40. unat (b' ! (39 - i)) = cs ! i"
    using bit_acquisition_loop [OF len0, where line = line0 and pos = 0 and prev = None]
    by (auto simp: periods)
  have "map unat b' = rev cs"
  proof (rule nth_equalityI)
    show "length (map unat b') = length (rev cs)" using len lcs by simp
  next
    fix i assume "i < length (map unat b')"
    then have i: "i < 40" using len by simp
    have "39 - i < (40 :: nat)" by simp
    from bits [rule_format, OF this] i have "unat (b' ! i) = cs ! (39 - i)" by simp
    moreover have "rev cs ! i = cs ! (39 - i)"
      using i lcs rev_nth [of i cs] by simp
    ultimately show "map unat b' ! i = rev cs ! i" using i len by simp
  qed
  moreover have "rev cs =
       [7, 3, 7, 3, 7, 3, 7, 3, 7, 3, 7, 3, 7, 3, 7, 3, 7, 3, 7, 3,
        7, 3, 7, 3, 7, 3, 7, 3, 7, 3, 7, 3, 7, 3, 7, 3, 7, 3, 7, 3]"
    by (simp add: cs_def)
  ultimately show ?thesis using run by simp
qed

section \<open>Properties of the handle life cycle\<close>

lemma null_terminated_step:
  "x < 32 \<Longrightarrow> nat x < length nm \<Longrightarrow>
   null_terminated nm x = (if nm ! nat x = 0 then Some True else null_terminated nm (x + 1))"
  by (subst null_terminated.simps) (simp add: DHT_MAX_SENSOR_NAME_def)

lemma null_terminated_stop: "\<not> x < 32 \<Longrightarrow> null_terminated nm x = Some False"
  by (subst null_terminated.simps) (simp add: DHT_MAX_SENSOR_NAME_def)

lemma null_terminated_oob:
  "x < 32 \<Longrightarrow> \<not> nat x < length nm \<Longrightarrow> null_terminated nm x = None"
  by (subst null_terminated.simps) (simp add: DHT_MAX_SENSOR_NAME_def)

lemma null_terminated_none:
  "n \<le> 32 \<Longrightarrow> 32 \<le> length nm \<Longrightarrow> \<forall>i<32. nm ! i \<noteq> 0 \<Longrightarrow>
   null_terminated nm (32 - int n) = Some False"
proof (induction n)
  case 0
  then show ?case by (simp add: null_terminated_stop)
next
  case (Suc n)
  have "nat (32 - int (Suc n)) < 32" using Suc.prems by simp
  moreover have "32 - int (Suc n) + 1 = 32 - int n" by simp
  ultimately show ?case
    using Suc by (subst null_terminated_step) auto
qed

lemmas lifecycle_eval =
  dhtInitialize_def dhtCleanup_def board_def junk_heap_def abc_def created_heap_def
  null_terminated_step null_terminated_stop malloc_pvt_def malloc_dht_def free_def
  DHT_MAX_SENSOR_NAME_def Let_def fun_upd_twist

text \<open>
  \<open>dhtCleanup\<close> on a live handle whose \<open>opaque\<close> pointer refers to a live token: when
  the token does not record the address of the handle, nothing is released; when it does,
  the block of the handle is released and the block of the token is not.
\<close>

lemma dhtCleanup_mismatch:
  "p \<noteq> NULL \<Longrightarrow> store h p = Some (DhtObj d) \<Longrightarrow> store h (opaque d) = Some (PvtObj pvt) \<Longrightarrow>
   pDhtAddress pvt \<noteq> p \<Longrightarrow>
   dhtCleanup h (Some p) = Some (DHT_INVALID_INPUT, h, Some p)"
  by (simp add: dhtCleanup_def)

lemma dhtCleanup_match:
  "p \<noteq> NULL \<Longrightarrow> store h p = Some (DhtObj d) \<Longrightarrow> store h (opaque d) = Some (PvtObj pvt) \<Longrightarrow>
   pDhtAddress pvt = p \<Longrightarrow>
   dhtCleanup h (Some p) = Some (DHT_OK, free h p, Some NULL)
   \<and> store (free h p) p = None
   \<and> store (free h p) (opaque d) = Some (PvtObj pvt)"
  by (auto simp: dhtCleanup_def free_def)

text \<open>
  Whenever \<open>dhtInitialize\<close> succeeds, the new handle is the fresh block with the
  fields \<open>pin\<close>, \<open>pc\<close> and \<open>opaque\<close> written and no other.
\<close>

lemma dhtInitialize_handle:
  "dhtInitialize g h pinId nm ppDht = Some (DHT_OK, nm', h', pp') \<Longrightarrow>
   \<exists>p q. pp' = Some p \<and> p \<noteq> NULL
     \<and> store h' p = Some (DhtObj ((junk_dht h p)\<lparr>pin := pinId, pc := 0, opaque := q\<rparr>))
     \<and> store h' q = Some (PvtObj ((junk_pvt h q)\<lparr>pDhtAddress := p\<rparr>))"
  by (auto simp: dhtInitialize_def malloc_pvt_def malloc_dht_def Let_def
           split: if_splits option.splits list.splits prod.splits obj.splits)

text \<open>
  C8 (display name).  The specification asks that the handle of a successful
  \<open>dhtInitialize\<close> records the name passed in.  No statement of the function writes
  the \<open>name\<close> field: created on pin 5 with the name \<open>abc\<close>, in blocks that held the
  byte \<open>0xA5\<close>, the handle at address 48 has the pin, the timestamp 0 and the token
  address, and its \<open>name\<close> is still the 32 bytes \<open>0xA5\<close> of the fresh block.
\<close>

theorem created_handle_name_not_written:
  "dhtInitialize board (junk_heap [16, 48]) 5 (Some abc) (Some NULL)
     = Some (DHT_OK, Some abc, created_heap, Some 48)
   \<and> store created_heap 48
     = Some (DhtObj \<lparr>name = replicate 32 0xA5, pin = 5, opaque = 16, pc = 0\<rparr>)"
  by (simp add: lifecycle_eval)

text \<open>
  C5 (destroy).  The specification asks that a successful \<open>dhtCleanup\<close> releases the handle and
  the identity token.  On the heap that \<open>dhtInitialize\<close> leaves, with the handle at
  address 48 and its token at address 16, \<open>dhtCleanup\<close> returns \<open>DHT_OK\<close>, clears
  the caller's pointer and releases the block at 48; the token at 16 stays allocated.
\<close>

theorem cleanup_leaves_identity_token:
  "dhtCleanup created_heap (Some 48)
     = Some (DHT_OK,
             created_heap\<lparr>store :=
               [16 \<mapsto> PvtObj \<lparr>pDhtAddress = 48, successCount = 0xA5A5A5A5,
                               errorCount = 0xA5A5A5A5\<rparr>]\<rparr>,
             Some NULL)"
  by (simp add: lifecycle_eval)

text \<open>
  C9 (truncation on a rejected call).  For a valid pin, a buffer of at least 32 bytes
  with no zero byte among the first 32, and a \<open>NULL\<close> output pointer,
  \<open>dhtInitialize\<close> returns \<open>DHT_INVALID_INPUT\<close>, leaves the heap as it was, and
  leaves the caller's buffer with a zero byte written at index 31.
\<close>

theorem truncation_before_null_check:
  assumes "valid_gpio g pinId" and "32 \<le> length nm" and "\<forall>i<32. nm ! i \<noteq> 0"
  shows "dhtInitialize g h pinId (Some nm) None
           = Some (DHT_INVALID_INPUT, Some (nm[31 := 0]), h, None)
         \<and> nm[31 := 0] ! 31 = 0"
proof -
  obtain c cs where nm: "nm = c # cs" using assms(2) by (cases nm) auto
  have "nm ! 0 \<noteq> 0" using assms(3) by simp
  then have c: "c \<noteq> 0" using nm by simp
  have "null_terminated nm 0 = Some False"
    using null_terminated_none [of 32 nm] assms by simp
  then show ?thesis
    using assms(1,2) c unfolding nm
    by (simp add: dhtInitialize_def DHT_MAX_SENSOR_NAME_def)
qed

text \<open>A buffer of forty letters \<open>A\<close> on pin 5, with an empty heap.\<close>

theorem truncation_before_null_check_witness:
  "dhtInitialize board (junk_heap [16, 48]) 5 (Some (replicate 40 0x41)) None
     = Some (DHT_INVALID_INPUT, Some (replicate 31 0x41 @ 0 # replicate 8 0x41),
             junk_heap [16, 48], None)"
proof -
  have v: "valid_gpio board 5" by (simp add: board_def)
  have l: "32 \<le> length (replicate 40 (0x41 :: u8))" by simp
  have z: "\<forall>i<32. replicate 40 (0x41 :: u8) ! i \<noteq> 0" by simp
  have u: "(replicate 40 (0x41 :: u8))[31 := 0] = replicate 31 0x41 @ 0 # replicate 8 0x41"
    by code_simp
  show ?thesis
    using truncation_before_null_check [OF v l z, of "junk_heap [16, 48]"]
    by (simp add: u)
qed

section \<open>Properties of \<open>dhtRead\<close>\<close>

lemma dhtReadBits_result:
  "fst (dhtReadBits line x b prev pos)
     \<in> {DHT_OK, DHT_SENSOR_DID_NOT_SWITCH_TO_HIGH, DHT_SENSOR_DID_NOT_SWITCH_TO_LOW}"
proof (induction line x b prev pos rule: dhtReadBits.induct)
  case (1 line x b prevState pos)
  show ?case
    using "1.IH"
    by (subst dhtReadBits.simps) (auto split: prod.splits)
qed

lemma dhtReadRawData_result:
  "fst (dhtReadRawData g d b) \<noteq> DHT_READ_QUERY_TOO_FREQUENT"
proof -
  have bits: "r \<noteq> DHT_READ_QUERY_TOO_FREQUENT"
    if "dhtReadBits line x b0 prev pos = (r, b1, pos1)" for line x b0 prev pos r b1 pos1
    using dhtReadBits_result [of line x b0 prev pos] that by auto
  show ?thesis
    by (auto simp: dhtReadRawData_def split: prod.splits dest: bits)
qed

lemma dhtReadRawData_handle: "fst (snd (dhtReadRawData g d b)) = d"
  by (simp add: dhtReadRawData_def split: prod.splits)

lemma dhtProcessRawData_result:
  "fst (dhtProcessRawData b out) \<noteq> DHT_READ_QUERY_TOO_FREQUENT"
  by (simp add: dhtProcessRawData_def Let_def)

lemma dhtRead_gate:
  "fst (dhtRead g now (Some h) (Some out)) = DHT_READ_QUERY_TOO_FREQUENT
     \<longleftrightarrow> now - pc h < pdMS_TO_TICKS (tick_rate_hz g) 2000"
  using dhtReadRawData_result [of g h "replicate 40 0"]
        dhtProcessRawData_result [of "snd (snd (dhtReadRawData g h (replicate 40 0)))" out]
  by (auto simp: dhtRead_def split: prod.splits)

text \<open>
  With the timestamp 0 that \<open>dhtInitialize\<close> stores, a call is rejected exactly when
  the tick count itself is below \<open>pdMS_TO_TICKS(2000)\<close>.
\<close>

lemma dhtRead_gate_after_creation:
  "pc h = 0 \<Longrightarrow>
   fst (dhtRead g now (Some h) (Some out)) = DHT_READ_QUERY_TOO_FREQUENT
     \<longleftrightarrow> now < pdMS_TO_TICKS (tick_rate_hz g) 2000"
  using dhtRead_gate [of g now h out] by simp

lemma dhtRead_handle_kept: "fst (snd (dhtRead g ticks (Some h) outdata)) = Some h"
  using dhtReadRawData_handle [of g h "replicate 40 0"]
  by (auto simp: dhtRead_def split: option.splits prod.splits)

text \<open>
  Two calls in a row, the second on the handle and the output structure the first one
  leaves: whether the second is rejected depends on its tick count and on the timestamp
  the handle had before the first call, never on the tick count of the first call.
\<close>

lemma second_read_gate:
  "fst (dhtRead g2 t2 (fst (snd (dhtRead g1 t1 (Some h) (Some out)))) (Some out2))
     = DHT_READ_QUERY_TOO_FREQUENT
   \<longleftrightarrow> t2 - pc h < pdMS_TO_TICKS (tick_rate_hz g2) 2000"
  using dhtRead_gate [of g2 t2 h out2] by (simp add: dhtRead_handle_kept)


text \<open>
  C10 (frame).  Whatever \<open>dhtRead\<close> returns, the handle it was given is the handle it
  leaves: no field is written, the timestamp \<open>pc\<close> in particular keeps the value it had
  before the call.
\<close>

theorem dhtRead_leaves_handle:
  "fst (snd (dhtRead g ticks pDht outdata)) = pDht"
proof (cases pDht)
  case None
  then show ?thesis by (simp add: dhtRead_def)
next
  case (Some d)
  show ?thesis
    using dhtReadRawData_handle [of g d "replicate 40 0"]
    by (auto simp: dhtRead_def Some split: option.splits prod.splits)
qed

end
